theory Spec2Isabelle
  imports Complex_Main
begin

section \<open>Python and numpy values\<close>

text \<open>
  Exceptions of the Python sources are values of the type \<open>error\<close>; a function that can
  raise returns \<open>error + 'a\<close>, with \<open>Inl\<close> for the exception.
\<close>

datatype error =
    DataError string
  | ValueError
  | IndexError
  | KeyError string
  | ZeroDivisionError
  | OSError

text \<open>
  A numpy float is a finite number, an infinity or NaN. Finite arithmetic is exact here:
  rounding, overflow to infinity and the sign of zero are not part of the model. What is
  kept is how numpy treats the special values, which is what the sources rely on:
  \<open>0/0\<close>, \<open>inf - inf\<close> and \<open>inf * 0\<close> are NaN, \<open>x/0\<close> is an infinity for
  \<open>x \<noteq> 0\<close>, NaN is absorbing, and none of these raises.
\<close>

datatype fval = Fin real | PInf | NInf | NaN

fun isnan :: "fval \<Rightarrow> bool" where
  "isnan NaN = True"
| "isnan (Fin a) = False"
| "isnan PInf = False"
| "isnan NInf = False"

fun fadd :: "fval \<Rightarrow> fval \<Rightarrow> fval" where
  "fadd (Fin a) (Fin b) = Fin (a + b)"
| "fadd (Fin a) PInf = PInf"
| "fadd (Fin a) NInf = NInf"
| "fadd (Fin a) NaN = NaN"
| "fadd PInf (Fin b) = PInf"
| "fadd PInf PInf = PInf"
| "fadd PInf NInf = NaN"
| "fadd PInf NaN = NaN"
| "fadd NInf (Fin b) = NInf"
| "fadd NInf PInf = NaN"
| "fadd NInf NInf = NInf"
| "fadd NInf NaN = NaN"
| "fadd NaN y = NaN"

fun fmul :: "fval \<Rightarrow> fval \<Rightarrow> fval" where
  "fmul (Fin a) (Fin b) = Fin (a * b)"
| "fmul (Fin a) PInf = (if a = 0 then NaN else if 0 < a then PInf else NInf)"
| "fmul (Fin a) NInf = (if a = 0 then NaN else if 0 < a then NInf else PInf)"
| "fmul (Fin a) NaN = NaN"
| "fmul PInf (Fin b) = (if b = 0 then NaN else if 0 < b then PInf else NInf)"
| "fmul PInf PInf = PInf"
| "fmul PInf NInf = NInf"
| "fmul PInf NaN = NaN"
| "fmul NInf (Fin b) = (if b = 0 then NaN else if 0 < b then NInf else PInf)"
| "fmul NInf PInf = NInf"
| "fmul NInf NInf = PInf"
| "fmul NInf NaN = NaN"
| "fmul NaN y = NaN"

fun fdiv :: "fval \<Rightarrow> fval \<Rightarrow> fval" where
  "fdiv (Fin a) (Fin b) =
     (if b = 0 then (if a = 0 then NaN else if 0 < a then PInf else NInf)
      else Fin (a / b))"
| "fdiv (Fin a) PInf = Fin 0"
| "fdiv (Fin a) NInf = Fin 0"
| "fdiv (Fin a) NaN = NaN"
| "fdiv PInf (Fin b) = (if 0 \<le> b then PInf else NInf)"
| "fdiv NInf (Fin b) = (if 0 \<le> b then NInf else PInf)"
| "fdiv PInf PInf = NaN"
| "fdiv PInf NInf = NaN"
| "fdiv PInf NaN = NaN"
| "fdiv NInf PInf = NaN"
| "fdiv NInf NInf = NaN"
| "fdiv NInf NaN = NaN"
| "fdiv NaN y = NaN"

text \<open>\<open>sp.arcsin\<close>: outside \<open>[-1, 1]\<close> numpy returns NaN (with a warning).\<close>

fun np_arcsin :: "fval \<Rightarrow> fval" where
  "np_arcsin (Fin a) = (if - 1 \<le> a \<and> a \<le> 1 then Fin (arcsin a) else NaN)"
| "np_arcsin PInf = NaN"
| "np_arcsin NInf = NaN"
| "np_arcsin NaN = NaN"

section \<open>The correlation script \<open>bin/do_cf.py\<close>\<close>

subsection \<open>Command line and module globals\<close>

text \<open>The parsed command line (\<open>args\<close>); \<open>nproc\<close> and \<open>nspec\<close> default to \<open>None\<close>.\<close>

record args =
  rp_max :: real
  rt_max :: real
  np :: int
  nt :: int
  lambda_abs :: real
  fid_Om :: real
  nside :: int
  nproc :: "int option"
  z_ref :: real
  z_evol :: real
  no_project :: bool
  from_image :: bool
  nspec :: "int option"

text \<open>
  \<open>argparse\<close> with the defaults of the script, for a command line that gives only the
  required \<open>--out\<close> and \<open>--in-dir\<close>; \<open>lya\<close> is \<open>constants.lya\<close>.
\<close>

definition default_args :: "real \<Rightarrow> args" where
  "default_args lya =
     \<lparr>rp_max = 200, rt_max = 200, np = 50, nt = 50, lambda_abs = lya, fid_Om = 0.315,
      nside = 16, nproc = None, z_ref = 2.25, z_evol = 2.9, no_project = False,
      from_image = False, nspec = None\<rparr>"

text \<open>
  Lines 72-73: \<open>if args.nproc is None: args.nproc = cpu_count()/2\<close>. The script is
  Python 2 (it uses the \<open>print\<close> statement), where \<open>/\<close> on two ints is floor division.
\<close>

definition set_nproc :: "int \<Rightarrow> args \<Rightarrow> args" where
  "set_nproc cpu_count a =
     (case nproc a of None \<Rightarrow> a\<lparr>nproc := Some (cpu_count div 2)\<rparr> | Some n \<Rightarrow> a)"

text \<open>
  Line 131: \<open>Pool(processes=args.nproc)\<close>. The pool is its number of workers;
  \<open>multiprocessing\<close> raises \<open>ValueError\<close> for fewer than one process.
\<close>

definition Pool :: "int option \<Rightarrow> int \<Rightarrow> error + int" where
  "Pool processes cpu_count =
     (let n = (case processes of None \<Rightarrow> cpu_count | Some n \<Rightarrow> n)
      in if n < 1 then Inl ValueError else Inr n)"

definition make_pool :: "int \<Rightarrow> args \<Rightarrow> error + int" where
  "make_pool cpu_count a = Pool (nproc (set_nproc cpu_count a)) cpu_count"

text \<open>The globals of the module \<open>cf\<close> that the script sets (lines 75-85).\<close>

record cf_globals =
  cf_rp_max :: real
  cf_rt_max :: real
  cf_np :: int
  cf_nt :: int
  cf_nside :: int
  cf_zref :: real
  cf_alpha :: real
  cf_angmax :: fval

text \<open>
  Lines 75-85. \<open>r_comoving\<close> is \<open>constants.cosmo(args.fid_Om).r_comoving\<close> and
  \<open>boss_lambda_min\<close> is \<open>constants.boss_lambda_min\<close>, both of the module \<open>constants\<close>
  that the script imports. \<open>boss_lambda_min / lambda_abs\<close> divides two Python floats and
  raises for a zero divisor; the quotient by the comoving distance and the arcsine are
  numpy operations.
\<close>

definition configure :: "(real \<Rightarrow> real) \<Rightarrow> real \<Rightarrow> args \<Rightarrow> error + cf_globals" where
  "configure r_comoving boss_lambda_min a =
     (if lambda_abs a = 0 then Inl ZeroDivisionError
      else Inr \<lparr>cf_rp_max = rp_max a, cf_rt_max = rt_max a, cf_np = np a, cf_nt = nt a,
                cf_nside = nside a, cf_zref = z_ref a, cf_alpha = z_evol a,
                cf_angmax =
                  np_arcsin (fdiv (Fin (rt_max a))
                    (Fin (r_comoving (boss_lambda_min / lambda_abs a - 1))))\<rparr>)"

text \<open>
  The formula of the specification: the survey's minimum redshift, then the angle.
\<close>

definition z_min :: "real \<Rightarrow> real \<Rightarrow> real" where
  "z_min boss_lambda_min lam_abs = boss_lambda_min / lam_abs - 1"

definition ang_max_spec :: "real \<Rightarrow> (real \<Rightarrow> real) \<Rightarrow> real \<Rightarrow> real" where
  "ang_max_spec rtmax comoving_distance zmin = arcsin (rtmax / comoving_distance zmin)"

subsection \<open>Reading and preprocessing the forests\<close>

text \<open>
  The attributes of a \<open>delta\<close> that the script reads or writes: the position, the
  log-wavelengths \<open>ll\<close>, the weights \<open>we\<close>, and the redshifts \<open>z\<close> and comoving
  distances \<open>r_comov\<close> that the script sets. The arrays hold finite numbers.
\<close>

record delta =
  ra :: real
  dec :: real
  ll :: "real list"
  we :: "real list"
  z :: "real list"
  r_comov :: "real list"

text \<open>
  \<open>a *= b\<close> on one-dimensional arrays: \<open>b\<close> has the length of \<open>a\<close> or the length one,
  and numpy raises \<open>ValueError\<close> otherwise.
\<close>

definition np_imul :: "real list \<Rightarrow> real list \<Rightarrow> error + real list" where
  "np_imul a b =
     (if length b = length a then Inr (map2 (*) a b)
      else if length b = 1 then Inr (map (\<lambda>x. x * hd b) a)
      else Inl ValueError)"

text \<open>
  Lines 110-115, for one forest. \<open>r_comoving\<close> is the comoving distance of the
  cosmology and \<open>project\<close> is the method \<open>delta.project\<close>. The powers are real powers:
  they are those of numpy where the bases are positive, that is for a positive
  \<open>lambda_abs\<close> and \<open>1 + z_ref\<close>.
\<close>

definition preprocess ::
  "(real \<Rightarrow> real) \<Rightarrow> (delta \<Rightarrow> delta) \<Rightarrow> args \<Rightarrow> cf_globals \<Rightarrow> delta \<Rightarrow> error + delta" where
  "preprocess r_comoving project a g d =
     (let zs = map (\<lambda>l. 10 powr l / lambda_abs a - 1) (ll d)
      in case np_imul (we d)
                (map (\<lambda>z. ((1 + z) / (1 + z_ref a)) powr (cf_alpha g - 1)) zs) of
           Inl e \<Rightarrow> Inl e
         | Inr w \<Rightarrow>
             (let d' = d\<lparr>z := zs, r_comov := map r_comoving zs, we := w\<rparr>
              in Inr (if \<not> no_project a then project d' else d')))"

text \<open>
  A Python dictionary from cells to lists, kept as the list of its items in the order
  of iteration. A new key goes to the end: this is the order of Python 3.7 and later;
  the Python 2 of the script iterates in the order of its hash table, which is not
  sorted either. \<open>dict_append p d data\<close> is
  \<open>if not p in data: data[p] = []\<close> followed by \<open>data[p].append(d)\<close>.
\<close>

fun dict_append :: "nat \<Rightarrow> 'a \<Rightarrow> (nat \<times> 'a list) list \<Rightarrow> (nat \<times> 'a list) list" where
  "dict_append p d [] = [(p, [d])]"
| "dict_append p d ((q, ds) # items) =
     (if q = p then (q, ds @ [d]) # items else (q, ds) # dict_append p d items)"

text \<open>
  The loop over \<open>zip(dels, pix)\<close> (lines 105-115). The list of a cell holds the
  forest object itself, which is then changed in place, so the dictionary holds the
  preprocessed forests.
\<close>

fun fill_data ::
  "(delta \<Rightarrow> error + delta) \<Rightarrow> (delta \<times> nat) list \<Rightarrow> (nat \<times> delta list) list
     \<Rightarrow> error + (nat \<times> delta list) list" where
  "fill_data pre [] data = Inr data"
| "fill_data pre ((d, p) # rest) data =
     (case pre d of
        Inl e \<Rightarrow> Inl e
      | Inr d' \<Rightarrow> fill_data pre rest (dict_append p d' data))"

text \<open>
  Lines 102-115: \<open>ang2pix\<close> is \<open>healpy.ang2pix\<close> for one position, called with
  \<open>cf.nside\<close>, the colatitude \<open>pi/2 - dec\<close> and the longitude \<open>ra\<close>.
\<close>

definition read_data ::
  "(int \<Rightarrow> real \<Rightarrow> real \<Rightarrow> nat) \<Rightarrow> (real \<Rightarrow> real) \<Rightarrow> (delta \<Rightarrow> delta) \<Rightarrow> args \<Rightarrow> cf_globals
     \<Rightarrow> delta list \<Rightarrow> error + (nat \<times> delta list) list" where
  "read_data ang2pix r_comoving project a g dels =
     fill_data (preprocess r_comoving project a g)
       (zip dels (map (\<lambda>d. ang2pix (cf_nside g) (pi / 2 - dec d) (ra d)) dels)) []"

text \<open>
  The preprocessing in the words of the claim about it, for one pixel with
  log-wavelength \<open>l\<close> and weight \<open>w\<close>.
\<close>

definition pixel_z :: "real \<Rightarrow> real \<Rightarrow> real" where
  "pixel_z lam_abs l = 10 powr l / lam_abs - 1"

definition evolved_weight :: "real \<Rightarrow> real \<Rightarrow> real \<Rightarrow> real \<Rightarrow> real" where
  "evolved_weight alpha zref zpix w = w * ((1 + zpix) / (1 + zref)) powr (alpha - 1)"

subsection \<open>Dispatch and reduction\<close>














text \<open>The list of a cell in the dictionary, empty for a cell that is not a key.\<close>

definition cell :: "nat \<Rightarrow> (nat \<times> 'a list) list \<Rightarrow> 'a list" where
  "cell p data = (case map_of data p of None \<Rightarrow> [] | Some ds \<Rightarrow> ds)"

text \<open>
  A preprocessed forest in the words of the claim about it: redshift, comoving distance
  and evolved weight of every pixel, and the projection unless \<open>--no-project\<close> is given.
\<close>

definition preprocessed :: "(real \<Rightarrow> real) \<Rightarrow> (delta \<Rightarrow> delta) \<Rightarrow> args \<Rightarrow> delta \<Rightarrow> delta" where
  "preprocessed r_comoving project a d =
     (let d' = d\<lparr>z := map (pixel_z (lambda_abs a)) (ll d),
                 r_comov := map (\<lambda>l. r_comoving (pixel_z (lambda_abs a) l)) (ll d),
                 we := map2 (\<lambda>w l. evolved_weight (z_evol a) (z_ref a)
                                      (pixel_z (lambda_abs a) l) w) (we d) (ll d)\<rparr>
      in if no_project a then d' else project d')"

text \<open>Two forests of one pixel each, in the cells 8 and 1 for the positions below.\<close>

definition delta_a :: delta where
  "delta_a = \<lparr>ra = 0, dec = 0, ll = [3], we = [2], z = [], r_comov = []\<rparr>"

definition delta_b :: delta where
  "delta_b = \<lparr>ra = 1, dec = 0, ll = [3], we = [1], z = [], r_comov = []\<rparr>"

definition sample_ang2pix :: "int \<Rightarrow> real \<Rightarrow> real \<Rightarrow> nat" where
  "sample_ang2pix n theta phi = (if phi = 0 then 8 else 1)"

definition sample_args :: args where
  "sample_args = (default_args 1000)\<lparr>z_evol := 2, z_ref := 0\<rparr>"








section \<open>The data component \<open>picca/delta_extraction/data.py\<close>\<close>

subsection \<open>Arrays and lists\<close>

text \<open>
  An elementwise numpy operation on two one-dimensional arrays: the arrays have the
  same length, or one of them has the length one and is broadcast; numpy raises
  \<open>ValueError\<close> otherwise.
\<close>

definition np_zip :: "('a \<Rightarrow> 'b \<Rightarrow> 'c) \<Rightarrow> 'a list \<Rightarrow> 'b list \<Rightarrow> error + 'c list" where
  "np_zip f xs ys =
     (if length xs = length ys then Inr (map2 f xs ys)
      else if length xs = 1 then Inr (map (f (hd xs)) ys)
      else if length ys = 1 then Inr (map (\<lambda>x. f x (hd ys)) xs)
      else Inl ValueError)"

text \<open>\<open>a.sum()\<close>: the sum of an empty array is \<open>0.0\<close>.\<close>

definition np_sum :: "fval list \<Rightarrow> fval" where
  "np_sum xs = foldl fadd (Fin 0) xs"

text \<open>\<open>del xs[i]\<close> for a non-negative index.\<close>

definition del_at :: "nat \<Rightarrow> 'a list \<Rightarrow> error + 'a list" where
  "del_at i xs = (if i < length xs then Inr (take i xs @ drop (Suc i) xs) else Inl IndexError)"

text \<open>\<open>for index in indexs: del xs[index]\<close>\<close>

fun del_all :: "nat list \<Rightarrow> 'a list \<Rightarrow> error + 'a list" where
  "del_all [] xs = Inr xs"
| "del_all (i # is) xs =
     (case del_at i xs of Inl e \<Rightarrow> Inl e | Inr xs' \<Rightarrow> del_all is xs')"

subsection \<open>Forests and the class \<open>Data\<close>\<close>

text \<open>
  The attributes of a \<open>Forest\<close> that \<open>Data\<close> reads or writes. \<open>healpix\<close> is set by
  \<open>find_nside\<close>.
\<close>

record forest =
  los_id :: int
  ra :: real
  dec :: real
  flux :: "fval list"
  ivar :: "fval list"
  bad_continuum_reason :: "string option"
  healpix :: "nat option"

record data =
  analysis_type :: string
  forests :: "forest list"
  min_num_pix :: int

text \<open>
  The loop \<open>for index, forest in enumerate(self.forests)\<close> of both filters: \<open>reject\<close> is
  the test of the loop body, which may raise, and the result is \<open>remove_indexs\<close>.
  The messages written to the logger are not part of the model.
\<close>

fun remove_indexs :: "('a \<Rightarrow> error + bool) \<Rightarrow> nat \<Rightarrow> 'a list \<Rightarrow> error + nat list" where
  "remove_indexs reject index [] = Inr []"
| "remove_indexs reject index (f # fs) =
     (case reject f of
        Inl e \<Rightarrow> Inl e
      | Inr b \<Rightarrow>
          (case remove_indexs reject (Suc index) fs of
             Inl e \<Rightarrow> Inl e
           | Inr is \<Rightarrow> Inr (if b then index # is else is)))"

text \<open>\<open>filter_bad_cont_forests\<close>: the test is \<open>forest.bad_continuum_reason is not None\<close>.\<close>

definition bad_cont :: "forest \<Rightarrow> error + bool" where
  "bad_cont f = Inr (bad_continuum_reason f \<noteq> None)"

definition filter_bad_cont_forests :: "data \<Rightarrow> error + data" where
  "filter_bad_cont_forests d =
     (case remove_indexs bad_cont 0 (forests d) of
        Inl e \<Rightarrow> Inl e
      | Inr is \<Rightarrow>
          (case del_all (rev (sort is)) (forests d) of
             Inl e \<Rightarrow> Inl e
           | Inr fs \<Rightarrow> Inr (d\<lparr>forests := fs\<rparr>)))"

text \<open>
  \<open>filter_forests\<close>: a forest is rejected if \<open>forest.flux.size < self.min_num_pix\<close>, and
  else if \<open>np.isnan((forest.flux * forest.ivar).sum())\<close>; the product is only computed
  for a forest that is long enough.
\<close>

definition low_quality :: "int \<Rightarrow> forest \<Rightarrow> error + bool" where
  "low_quality min_pix f =
     (if int (length (flux f)) < min_pix then Inr True
      else (case np_zip fmul (flux f) (ivar f) of
              Inl e \<Rightarrow> Inl e
            | Inr p \<Rightarrow> Inr (isnan (np_sum p))))"

definition filter_forests :: "data \<Rightarrow> error + data" where
  "filter_forests d =
     (case remove_indexs (low_quality (min_num_pix d)) 0 (forests d) of
        Inl e \<Rightarrow> Inl e
      | Inr is \<Rightarrow>
          (case del_all (rev (sort is)) (forests d) of
             Inl e \<Rightarrow> Inl e
           | Inr fs \<Rightarrow> Inr (d\<lparr>forests := fs\<rparr>)))"

text \<open>
  The two conditions of the claim about \<open>filter_forests\<close>, in its words: fewer pixels
  than the minimum, or a NaN sum of flux times inverse variance.
\<close>

definition too_short :: "int \<Rightarrow> forest \<Rightarrow> bool" where
  "too_short min_pix f = (int (length (flux f)) < min_pix)"

definition nan_sum :: "forest \<Rightarrow> bool" where
  "nan_sum f = isnan (np_sum (map2 fmul (flux f) (ivar f)))"

subsection \<open>\<open>find_nside\<close>\<close>





subsection \<open>Sample forests\<close>

text \<open>
  Three forests of two or one pixels: a regular one, one that is too short for a minimum
  of two pixels and has no continuum, and one with a NaN flux.
\<close>

definition forest_ok :: forest where
  "forest_ok =
     \<lparr>los_id = 1, ra = 0, dec = 0, flux = [Fin 1, Fin 2], ivar = [Fin 1, Fin 1],
      bad_continuum_reason = None, healpix = None\<rparr>"

definition forest_short :: forest where
  "forest_short =
     \<lparr>los_id = 2, ra = 1, dec = 0, flux = [Fin 1], ivar = [Fin 1],
      bad_continuum_reason = Some ''negative continuum'', healpix = None\<rparr>"

definition forest_nan :: forest where
  "forest_nan =
     \<lparr>los_id = 3, ra = 2, dec = 0, flux = [NaN, Fin 1], ivar = [Fin 1, Fin 1],
      bad_continuum_reason = None, healpix = None\<rparr>"

definition sample_data :: data where
  "sample_data =
     \<lparr>analysis_type = ''BAO 3D'',
      forests = [forest_short, forest_ok, forest_nan, forest_ok],
      min_num_pix = 2\<rparr>"

subsection \<open>Configuration\<close>











subsection \<open>\<open>Data.__init__\<close>\<close>




section \<open>The DESI reader \<open>picca/delta_extraction/data_catalogues/desi_data.py\<close>\<close>

subsection \<open>\<open>DesiData._parse_config\<close> and \<open>DesiData.__init__\<close>\<close>








subsection \<open>Spectra files\<close>

text \<open>
  The image of an HDU is a one- or two-dimensional array; a two-dimensional array is the
  list of its rows, one row for each spectrum. Integer masks are stored as the numbers
  they are.
\<close>

datatype 'a ndarray = A1 "'a list" | A2 "'a list list"

fun np_map :: "('a \<Rightarrow> 'b) \<Rightarrow> 'a ndarray \<Rightarrow> 'b ndarray" where
  "np_map f (A1 xs) = A1 (map f xs)"
| "np_map f (A2 rows) = A2 (map (map f) rows)"

text \<open>The elements in storage order.\<close>

fun pixels :: "'a ndarray \<Rightarrow> 'a list" where
  "pixels (A1 xs) = xs"
| "pixels (A2 rows) = concat rows"

text \<open>The shape: the length of a vector, or the lengths of the rows of an image.\<close>

fun shape :: "'a ndarray \<Rightarrow> nat + nat list" where
  "shape (A1 xs) = Inl (length xs)"
| "shape (A2 rows) = Inr (map length rows)"

text \<open>
  An elementwise operation on two arrays of the same shape. For different shapes numpy
  broadcasts where it can and raises \<open>ValueError\<close> where it cannot; here every
  difference of shape raises, so that a result of the model is a result without
  broadcasting.
\<close>

fun np_binop :: "('a \<Rightarrow> 'b \<Rightarrow> 'c) \<Rightarrow> 'a ndarray \<Rightarrow> 'b ndarray \<Rightarrow> error + 'c ndarray" where
  "np_binop f (A1 xs) (A1 ys) =
     (if length xs = length ys then Inr (A1 (map2 f xs ys)) else Inl ValueError)"
| "np_binop f (A2 xs) (A2 ys) =
     (if map length xs = map length ys then Inr (A2 (map2 (map2 f) xs ys))
      else Inl ValueError)"
| "np_binop f (A1 xs) (A2 ys) = Inl ValueError"
| "np_binop f (A2 xs) (A1 ys) = Inl ValueError"

text \<open>
  \<open>a[w] = v\<close> for a boolean array \<open>w\<close>, which must have the shape of \<open>a\<close>; numpy raises
  \<open>IndexError\<close> otherwise.
\<close>

definition set_where :: "bool ndarray \<Rightarrow> 'a \<Rightarrow> 'a ndarray \<Rightarrow> error + 'a ndarray" where
  "set_where w v a =
     (case np_binop (\<lambda>b x. if b then v else x) w a of
        Inl e \<Rightarrow> Inl IndexError
      | Inr r \<Rightarrow> Inr r)"

text \<open>
  An open FITS file: the images of its HDUs by name. Reading an HDU that the file does
  not have raises \<open>OSError\<close>.
\<close>

type_synonym hdul = "string \<rightharpoonup> fval ndarray"

definition read_hdu :: "hdul \<Rightarrow> string \<Rightarrow> error + fval ndarray" where
  "read_hdu hdul name = (case hdul name of None \<Rightarrow> Inl OSError | Some a \<Rightarrow> Inr a)"

subsection \<open>\<open>DesiData.read_from_desi\<close>: the data of the spectrographs\<close>

text \<open>The dictionary \<open>spec\<close> of one band.\<close>

type_synonym spec = "string \<rightharpoonup> fval ndarray"

text \<open>
  The body of the \<open>try\<close> for one colour (lines 167-176): the wavelength and the flux
  are read, the inverse variance is read and multiplied by \<open>mask == 0\<close>, and flux and
  inverse variance are set to zero where either is NaN.
\<close>

definition read_band :: "hdul \<Rightarrow> string \<Rightarrow> error + spec" where
  "read_band hdul color =
     (case read_hdu hdul (color @ ''_WAVELENGTH'') of Inl e \<Rightarrow> Inl e | Inr wavelength \<Rightarrow>
     (case read_hdu hdul (color @ ''_FLUX'') of Inl e \<Rightarrow> Inl e | Inr flux0 \<Rightarrow>
     (case read_hdu hdul (color @ ''_IVAR'') of Inl e \<Rightarrow> Inl e | Inr ivar0 \<Rightarrow>
     (case read_hdu hdul (color @ ''_MASK'') of Inl e \<Rightarrow> Inl e | Inr mask0 \<Rightarrow>
     (case np_binop (\<lambda>i unmasked. fmul i (if unmasked then Fin 1 else Fin 0))
             ivar0 (np_map (\<lambda>m. m = Fin 0) mask0) of Inl e \<Rightarrow> Inl e | Inr ivar1 \<Rightarrow>
     (case np_binop (\<or>) (np_map isnan flux0) (np_map isnan ivar1) of
        Inl e \<Rightarrow> Inl e | Inr w \<Rightarrow>
     (case set_where w (Fin 0) flux0 of Inl e \<Rightarrow> Inl e | Inr flux1 \<Rightarrow>
     (case set_where w (Fin 0) ivar1 of Inl e \<Rightarrow> Inl e | Inr ivar2 \<Rightarrow>
        Inr [''WAVELENGTHL'' \<mapsto> wavelength, ''FLUX'' \<mapsto> flux1,
             ''IVAR'' \<mapsto> ivar2]))))))))"



text \<open>
  Lines 205-208, where a forest is built from a band: the arrays are looked up under
  the keys \<open>IV\<close>, \<open>FL\<close> and \<open>WAVELENGTH\<close>.
\<close>

definition dict_get :: "(string \<rightharpoonup> 'v) \<Rightarrow> string \<Rightarrow> error + 'v" where
  "dict_get d k = (case d k of None \<Rightarrow> Inl (KeyError k) | Some v \<Rightarrow> Inr v)"

definition forest_arrays :: "spec \<Rightarrow> error + (fval ndarray \<times> fval ndarray \<times> fval ndarray)" where
  "forest_arrays spec =
     (case dict_get spec ''IV'' of Inl e \<Rightarrow> Inl e | Inr iv \<Rightarrow>
     (case dict_get spec ''FL'' of Inl e \<Rightarrow> Inl e | Inr fl \<Rightarrow>
     (case dict_get spec ''WAVELENGTH'' of
        Inl e \<Rightarrow> Inl e
      | Inr wl \<Rightarrow> Inr (iv, fl, wl))))"

text \<open>
  The sanitization in the words of the claim about it, for one pixel: the inverse
  variance of the file times the indicator of \<open>mask == 0\<close>, and zero for flux and
  inverse variance where the flux or that inverse variance is NaN.
\<close>

definition masked_ivar :: "fval \<Rightarrow> fval \<Rightarrow> fval" where
  "masked_ivar i m = fmul i (if m = Fin 0 then Fin 1 else Fin 0)"

definition stored_flux :: "fval \<times> fval \<times> fval \<Rightarrow> fval" where
  "stored_flux = (\<lambda>(f, i, m). if isnan f \<or> isnan (masked_ivar i m) then Fin 0 else f)"

definition stored_ivar :: "fval \<times> fval \<times> fval \<Rightarrow> fval" where
  "stored_ivar =
     (\<lambda>(f, i, m). if isnan f \<or> isnan (masked_ivar i m) then Fin 0 else masked_ivar i m)"




section \<open>Properties\<close>

subsection \<open>Worker pool size\<close>

text \<open>
  Claim C8, as stated: with \<open>--nproc\<close> not given, the pool has as many workers as the
  machine has CPUs. It fails: on a machine with 4 CPUs the pool has 2 workers.
\<close>

theorem C8_pool_size_counterexample:
  "make_pool 4 (default_args 1216) = Inr 2 \<and> make_pool 4 (default_args 1216) \<noteq> Inr 4"
  by (simp add: make_pool_def set_nproc_def default_args_def Pool_def)

text \<open>
  Claim C8, amended: with \<open>--nproc\<close> not given, the pool is created with half the CPU
  count, rounded down, whenever that is at least one worker.
\<close>

theorem C8_pool_size_half:
  "nproc a = None \<Longrightarrow> 2 \<le> cpu_count \<Longrightarrow> make_pool cpu_count a = Inr (cpu_count div 2)"
  by (auto simp: make_pool_def set_nproc_def Pool_def Let_def)

theorem C8_pool_size_half_witness:
  "nproc (default_args 1216) = None \<and> (2::int) \<le> 5
   \<and> make_pool 5 (default_args 1216) = Inr 2"
  using C8_pool_size_half [of "default_args 1216" 5]
  by (simp add: default_args_def)

subsection \<open>Maximum transverse angle\<close>

text \<open>
  Claim C4: \<open>ang_max = arcsin(rt_max / comoving_distance(z_min))\<close> with
  \<open>z_min = boss_lambda_min / lambda_abs - 1\<close>. The hypotheses say that the formula is
  defined: the rest wavelength is not zero, the comoving distance at \<open>z_min\<close> is not
  zero, and the quotient is in the domain of the arcsine.
\<close>

theorem C4_angmax:
  assumes "lambda_abs a \<noteq> 0"
    and "r_comoving (z_min boss_lambda_min (lambda_abs a)) \<noteq> 0"
    and "\<bar>rt_max a / r_comoving (z_min boss_lambda_min (lambda_abs a))\<bar> \<le> 1"
  shows "\<exists>g. configure r_comoving boss_lambda_min a = Inr g
           \<and> cf_rt_max g = rt_max a
           \<and> cf_angmax g =
               Fin (ang_max_spec (rt_max a) r_comoving (z_min boss_lambda_min (lambda_abs a)))"
proof -
  let ?q = "rt_max a / r_comoving (boss_lambda_min / lambda_abs a - 1)"
  from assms(3) have "?q \<le> 1" and "- ?q \<le> 1"
    unfolding z_min_def abs_le_iff by blast+
  then have "- 1 \<le> ?q \<and> ?q \<le> 1"
    by linarith
  with assms(1,2) show ?thesis
    by (simp add: configure_def z_min_def ang_max_spec_def)
qed

theorem C4_angmax_witness:
  "lambda_abs (default_args 1216) \<noteq> 0
   \<and> (\<exists>g. configure (\<lambda>z. 400 * z) 3600 (default_args 1216) = Inr g
        \<and> cf_rt_max g = 200
        \<and> cf_angmax g = Fin (arcsin (38 / 149)))"
  using C4_angmax [of "default_args 1216" "\<lambda>z. 400 * z" 3600]
  by (simp add: default_args_def z_min_def ang_max_spec_def)

subsection \<open>Preprocessing the forests\<close>

lemma configure_fields:
  "configure r_comoving blm a = Inr g
   \<Longrightarrow> cf_alpha g = z_evol a \<and> cf_nside g = nside a \<and> cf_zref g = z_ref a"
  by (auto simp: configure_def split: if_splits)

lemma preprocess_eq:
  assumes "length (we d) = length (ll d)" and "cf_alpha g = z_evol a"
  shows "preprocess r_comoving project a g d = Inr (preprocessed r_comoving project a d)"
proof -
  have pz: "(\<lambda>l. 10 powr l / lambda_abs a - 1) = pixel_z (lambda_abs a)"
    by (rule ext) (simp add: pixel_z_def)
  have w: "map2 (*) (we d)
          (map (\<lambda>z. ((1 + z) / (1 + z_ref a)) powr (z_evol a - 1))
             (map (pixel_z (lambda_abs a)) (ll d)))
        = map2 (\<lambda>w l. evolved_weight (z_evol a) (z_ref a) (pixel_z (lambda_abs a) l) w)
            (we d) (ll d)"
    by (simp add: zip_map2 evolved_weight_def comp_def case_prod_unfold)
  have r: "map r_comoving (map (pixel_z (lambda_abs a)) (ll d))
             = map (\<lambda>l. r_comoving (pixel_z (lambda_abs a) l)) (ll d)"
    by simp
  show ?thesis
    unfolding preprocess_def preprocessed_def Let_def pz np_imul_def
    using assms by (simp only: length_map if_True w r sum.case) simp
qed

lemma positive_base:
  assumes "0 < lam" and "- 1 < zref"
  shows "0 < (1 + pixel_z lam l) / (1 + zref)"
  using assms by (simp add: pixel_z_def)

lemma cell_dict_append:
  "cell q (dict_append p d data) = cell q data @ (if q = p then [d] else [])"
  by (induction data) (auto simp: cell_def)

lemma fill_data_ok:
  assumes "\<forall>(d, p) \<in> set xs. pre d = Inr (f d)"
  shows "\<exists>data'. fill_data pre xs data = Inr data'
           \<and> (\<forall>q. cell q data' = cell q data @ map f (map fst (filter (\<lambda>(d, p). p = q) xs)))"
  using assms
proof (induction xs arbitrary: data)
  case Nil
  then show ?case by simp
next
  case (Cons x xs)
  obtain d p where x: "x = (d, p)" by (cases x)
  with Cons.prems have pre: "pre d = Inr (f d)" and rest: "\<forall>(d, p) \<in> set xs. pre d = Inr (f d)"
    by auto
  from Cons.IH [OF rest, of "dict_append p (f d) data"] obtain data'
    where *: "fill_data pre xs (dict_append p (f d) data) = Inr data'"
      and **: "\<forall>q. cell q data' = cell q (dict_append p (f d) data)
                       @ map f (map fst (filter (\<lambda>(d, p). p = q) xs))"
    by blast
  from * pre x have "fill_data pre (x # xs) data = Inr data'"
    by simp
  moreover from ** x have "\<forall>q. cell q data' = cell q data
                       @ map f (map fst (filter (\<lambda>(d, p). p = q) (x # xs)))"
    by (simp add: cell_dict_append)
  ultimately show ?case by blast
qed

lemma filter_zip_pix:
  "map fst (filter (\<lambda>(d, p). p = q) (zip ds (map pix ds))) = filter (\<lambda>d. pix d = q) ds"
  by (induction ds) auto

text \<open>
  Claim C7: the loop preprocesses every forest and files it under its cell. For each
  pixel the redshift is \<open>10^ll / lambda_abs - 1\<close>, the comoving distance is that of the
  redshift, and the weight is multiplied by
  \<open>((1 + z) / (1 + z_ref))^(alpha - 1)\<close>, with \<open>alpha\<close> the exponent \<open>--z-evol\<close> that the
  configuration stored; the projection is applied unless \<open>--no-project\<close> is given, which
  is not the default. The weights and log-wavelengths of a forest have the same length,
  and \<open>lambda_abs\<close> and \<open>1 + z_ref\<close> are positive, so that the bases of the powers are.
\<close>

theorem C7_preprocessing:
  assumes "configure r_comoving boss_lambda_min a = Inr g"
    and "0 < lambda_abs a" and "- 1 < z_ref a"
    and "\<forall>d \<in> set dels. length (we d) = length (ll d)"
  shows "\<exists>data. read_data ang2pix r_comoving project a g dels = Inr data
           \<and> (\<forall>p. cell p data =
                 map (preprocessed r_comoving project a)
                   (filter (\<lambda>d. ang2pix (nside a) (pi / 2 - delta.dec d) (delta.ra d) = p) dels))
           \<and> (\<forall>l. 0 < (1 + pixel_z (lambda_abs a) l) / (1 + z_ref a))"
proof -
  note cf = configure_fields [OF assms(1)]
  let ?pix = "\<lambda>d. ang2pix (nside a) (pi / 2 - delta.dec d) (delta.ra d)"
  let ?xs = "zip dels (map ?pix dels)"
  have "\<forall>(d, p) \<in> set ?xs. preprocess r_comoving project a g d
          = Inr (preprocessed r_comoving project a d)"
    using assms(4) cf by (auto simp: preprocess_eq dest: set_zip_leftD)
  from fill_data_ok [OF this, of "[]"] obtain data
    where "fill_data (preprocess r_comoving project a g) ?xs [] = Inr data"
      and "\<forall>q. cell q data = cell q []
             @ map (preprocessed r_comoving project a) (map fst (filter (\<lambda>(d, p). p = q) ?xs))"
    by blast
  then have "read_data ang2pix r_comoving project a g dels = Inr data"
    and "\<forall>p. cell p data = map (preprocessed r_comoving project a) (filter (\<lambda>d. ?pix d = p) dels)"
    using cf by (simp_all add: read_data_def filter_zip_pix cell_def)
  with positive_base [OF assms(2,3)] show ?thesis by blast
qed

theorem C7_preprocessing_witness:
  "\<exists>g data. configure (\<lambda>z. 100 * z + 5) 3600 sample_args = Inr g
      \<and> read_data sample_ang2pix (\<lambda>z. 100 * z + 5) (\<lambda>d. d\<lparr>we := map (\<lambda>w. w - 1) (we d)\<rparr>)
            sample_args g [delta_a, delta_b] = Inr data
      \<and> cell 8 data = [delta_a\<lparr>z := [0], r_comov := [5], we := [1]\<rparr>]
      \<and> cell 1 data = [delta_b\<lparr>z := [0], r_comov := [5], we := [0]\<rparr>]
      \<and> no_project sample_args = False"
proof -
  let ?r = "\<lambda>z::real. 100 * z + 5"
  let ?project = "\<lambda>d. d\<lparr>we := map (\<lambda>w. w - 1) (we d)\<rparr>"
  obtain g where g: "configure ?r 3600 sample_args = Inr g"
    by (simp add: configure_def sample_args_def default_args_def)
  have lam: "0 < lambda_abs sample_args" and zr: "- 1 < z_ref sample_args"
    by (simp_all add: sample_args_def default_args_def)
  have len: "\<forall>d \<in> set [delta_a, delta_b]. length (we d) = length (ll d)"
    by (simp add: delta_a_def delta_b_def)
  from C7_preprocessing [OF g lam zr len, of sample_ang2pix ?project] obtain data
    where rd: "read_data sample_ang2pix ?r ?project sample_args g [delta_a, delta_b] = Inr data"
      and cells: "\<forall>p. cell p data =
                 map (preprocessed ?r ?project sample_args)
                   (filter (\<lambda>d. sample_ang2pix (nside sample_args) (pi / 2 - delta.dec d)
                                 (delta.ra d) = p) [delta_a, delta_b])"
    by blast
  have a: "preprocessed ?r ?project sample_args delta_a
             = delta_a\<lparr>z := [0], r_comov := [5], we := [1]\<rparr>"
    and b: "preprocessed ?r ?project sample_args delta_b
             = delta_b\<lparr>z := [0], r_comov := [5], we := [0]\<rparr>"
    by (simp_all add: preprocessed_def sample_args_def default_args_def delta_a_def delta_b_def
        pixel_z_def evolved_weight_def)
  from cells a b have "cell 8 data = [delta_a\<lparr>z := [0], r_comov := [5], we := [1]\<rparr>]"
    and "cell 1 data = [delta_b\<lparr>z := [0], r_comov := [5], we := [0]\<rparr>]"
    by (simp_all add: sample_ang2pix_def delta_a_def delta_b_def)
  moreover have "no_project sample_args = False"
    by (simp add: sample_args_def default_args_def)
  ultimately show ?thesis using g rd by blast
qed

subsection \<open>Reduction of the partial results\<close>

lemma fadd_zero_left [simp]: "fadd (Fin 0) x = x"
  by (cases x) simp_all


















subsection \<open>Dispatch of the tasks\<close>







lemma keys_dict_append:
  "map fst (dict_append p d data)
     = (if p \<in> set (map fst data) then map fst data else map fst data @ [p])"
  by (induction data) (force split: if_splits)+

lemma fill_data_distinct:
  "distinct (map fst data) \<Longrightarrow> fill_data pre xs data = Inr data'
   \<Longrightarrow> distinct (map fst data')"
proof (induction xs arbitrary: data)
  case Nil
  then show ?case by simp
next
  case (Cons x xs)
  obtain d p where x: "x = (d, p)" by (cases x)
  with Cons.prems(2) obtain d' where "pre d = Inr d'"
    and r: "fill_data pre xs (dict_append p d' data) = Inr data'"
    by (auto split: sum.splits)
  have "distinct (map fst (dict_append p d' data))"
    using Cons.prems(1) by (simp add: keys_dict_append)
  from Cons.IH [OF this r] show ?case .
qed

lemma read_data_distinct:
  "read_data ang2pix r_comoving project a g dels = Inr data \<Longrightarrow> distinct (map fst data)"
  unfolding read_data_def using fill_data_distinct [where data = "[]"] by auto




subsection \<open>Filtering forests\<close>


lemma del_all_append:
  "del_all is ys = Inr r \<Longrightarrow> del_all is (ys @ zs) = Inr (r @ zs)"
proof (induction "is" arbitrary: ys)
  case Nil
  then show ?case by simp
next
  case (Cons i "is")
  from Cons.prems have i: "i < length ys"
    and r: "del_all is (take i ys @ drop (Suc i) ys) = Inr r"
    by (auto simp: del_at_def split: if_splits)
  from Cons.IH [OF r] have "del_all is ((take i ys @ drop (Suc i) ys) @ zs) = Inr (r @ zs)" .
  with i show ?case
    by (simp add: del_at_def)
qed

lemma remove_indexs_total:
  assumes "\<And>f. f \<in> set fs \<Longrightarrow> reject f = Inr (P f)"
  shows "remove_indexs reject i fs = Inr (map (\<lambda>k. i + k) (filter (\<lambda>k. P (fs ! k)) [0..<length fs]))"
  using assms
proof (induction fs arbitrary: i)
  case Nil
  then show ?case by simp
next
  case (Cons f fs)
  have "[0..<length (f # fs)] = 0 # map Suc [0..<length fs]"
    by (simp add: upt_conv_Cons map_Suc_upt del: upt_Suc)
  then show ?case using Cons
    by (simp add: filter_map comp_def del: upt_Suc)
qed

lemma del_descending:
  "del_all (rev (filter (\<lambda>k. P (xs ! k)) [0..<length xs])) xs = Inr (filter (\<lambda>x. \<not> P x) xs)"
proof (induction xs rule: rev_induct)
  case Nil
  then show ?case by simp
next
  case (snoc y ys)
  have same: "filter (\<lambda>k. P ((ys @ [y]) ! k)) [0..<length ys] = filter (\<lambda>k. P (ys ! k)) [0..<length ys]"
    by (rule filter_cong) (auto simp: nth_append)
  show ?case
  proof (cases "P y")
    case True
    then show ?thesis using snoc same
      by (simp add: del_at_def)
  next
    case False
    then show ?thesis using snoc same del_all_append
      by simp
  qed
qed

lemma low_quality_eq:
  "length (ivar f) = length (flux f)
   \<Longrightarrow> low_quality m f = Inr (too_short m f \<or> nan_sum f)"
  by (simp add: low_quality_def too_short_def nan_sum_def np_zip_def)

lemma sort_filter_upt: "sort (filter Q [0..<n::nat]) = filter Q [0..<n]"
  by (rule sorted_sort_id) (simp add: sorted_wrt_filter del: upt_Suc)

lemma filter_by_indexs:
  assumes "\<And>f. f \<in> set fs \<Longrightarrow> reject f = Inr (P f)"
  shows "\<exists>is. remove_indexs reject 0 fs = Inr is
           \<and> del_all (rev (sort is)) fs = Inr (filter (\<lambda>f. \<not> P f) fs)"
proof -
  have "remove_indexs reject 0 fs = Inr (filter (\<lambda>k. P (fs ! k)) [0..<length fs])"
    using remove_indexs_total [where i = 0 and fs = fs, OF assms] by simp
  then show ?thesis
    by (simp add: sort_filter_upt del_descending)
qed

text \<open>
  Claim C5: \<open>filter_forests\<close> removes exactly the forests with fewer pixels than the
  minimum or with a NaN sum of flux times inverse variance, \<open>filter_bad_cont_forests\<close>
  removes exactly the forests whose \<open>bad_continuum_reason\<close> is set, and both keep the
  other forests in their order: the result is the \<open>filter\<close> of the list. The flux and
  the inverse variance of a forest have the same length.
\<close>

theorem C5_filters:
  assumes "\<forall>f \<in> set (forests d). length (ivar f) = length (flux f)"
  shows "filter_forests d =
           Inr (d\<lparr>forests :=
                  filter (\<lambda>f. \<not> (too_short (min_num_pix d) f \<or> nan_sum f)) (forests d)\<rparr>)
       \<and> filter_bad_cont_forests d =
           Inr (d\<lparr>forests := filter (\<lambda>f. bad_continuum_reason f = None) (forests d)\<rparr>)"
proof
  have "\<And>f. f \<in> set (forests d)
          \<Longrightarrow> low_quality (min_num_pix d) f = Inr (too_short (min_num_pix d) f \<or> nan_sum f)"
    using assms by (simp add: low_quality_eq)
  from filter_by_indexs [of "forests d" "low_quality (min_num_pix d)", OF this]
  obtain "is" where "remove_indexs (low_quality (min_num_pix d)) 0 (forests d) = Inr is"
    and "del_all (rev (sort is)) (forests d)
           = Inr (filter (\<lambda>f. \<not> (too_short (min_num_pix d) f \<or> nan_sum f)) (forests d))"
    by blast
  then show "filter_forests d =
           Inr (d\<lparr>forests :=
                  filter (\<lambda>f. \<not> (too_short (min_num_pix d) f \<or> nan_sum f)) (forests d)\<rparr>)"
    by (simp add: filter_forests_def)
next
  have "\<And>f. f \<in> set (forests d) \<Longrightarrow> bad_cont f = Inr (bad_continuum_reason f \<noteq> None)"
    by (simp add: bad_cont_def)
  from filter_by_indexs [of "forests d" bad_cont, OF this]
  obtain "is" where "remove_indexs bad_cont 0 (forests d) = Inr is"
    and "del_all (rev (sort is)) (forests d)
           = Inr (filter (\<lambda>f. \<not> bad_continuum_reason f \<noteq> None) (forests d))"
    by blast
  then show "filter_bad_cont_forests d =
           Inr (d\<lparr>forests := filter (\<lambda>f. bad_continuum_reason f = None) (forests d)\<rparr>)"
    by (simp add: filter_bad_cont_forests_def)
qed

theorem C5_filters_witness:
  "filter_forests sample_data = Inr (sample_data\<lparr>forests := [forest_ok, forest_ok]\<rparr>)
   \<and> filter_bad_cont_forests sample_data =
       Inr (sample_data\<lparr>forests := [forest_ok, forest_nan, forest_ok]\<rparr>)"
proof -
  have "\<forall>f \<in> set (forests sample_data). length (ivar f) = length (flux f)"
    by (simp add: sample_data_def forest_ok_def forest_short_def forest_nan_def)
  from C5_filters [OF this] show ?thesis
    by (simp add: sample_data_def forest_ok_def forest_short_def forest_nan_def
        too_short_def nan_sum_def np_sum_def)
qed

subsection \<open>The healpix resolution\<close>






subsection \<open>Configuration\<close>















subsection \<open>Sanitizing the spectra\<close>

lemma concat_map2:
  "map length xs = map length ys
   \<Longrightarrow> concat (map2 (map2 f) xs ys) = map2 f (concat xs) (concat ys)"
proof (induction xs arbitrary: ys)
  case Nil
  then show ?case by simp
next
  case (Cons x xs)
  then obtain y ys' where ys: "ys = y # ys'"
    by (cases ys) auto
  with Cons.prems have "length x = length y" and "map length xs = map length ys'"
    by auto
  with Cons.IH [of ys'] ys show ?case
    by simp
qed

lemma shape_length_pixels:
  "shape a = shape b \<Longrightarrow> length (pixels a) = length (pixels b)"
proof (cases a; cases b)
  fix xs ys
  assume "shape a = shape b" and a: "a = A2 xs" and b: "b = A2 ys"
  then have "map length xs = map length ys" by simp
  then have "sum_list (map length xs) = sum_list (map length ys)" by simp
  with a b show ?thesis by (simp add: length_concat)
qed auto

lemma shape_np_map [simp]: "shape (np_map f a) = shape a"
  by (cases a) (simp_all add: comp_def)

lemma pixels_np_map [simp]: "pixels (np_map f a) = map f (pixels a)"
  by (cases a) (simp_all add: map_concat)

lemma np_binop_Inr:
  assumes "np_binop f a b = Inr c"
  shows "shape a = shape b \<and> shape c = shape a \<and> pixels c = map2 f (pixels a) (pixels b)"
proof (cases a; cases b)
  fix xs ys
  assume a: "a = A2 xs" and b: "b = A2 ys"
  with assms have eq: "map length xs = map length ys" and c: "c = A2 (map2 (map2 f) xs ys)"
    by (auto split: if_splits)
  have "map length (map2 (map2 f) xs ys) = map length xs"
    using eq
  proof (induction xs arbitrary: ys)
    case Nil
    then show ?case by simp
  next
    case (Cons x xs)
    then show ?case by (cases ys) auto
  qed
  with a b c eq show ?thesis
    by (simp add: concat_map2)
qed (use assms in \<open>auto split: if_splits\<close>)

lemma set_where_Inr:
  assumes "set_where w v a = Inr c"
  shows "shape w = shape a \<and> shape c = shape a
         \<and> pixels c = map2 (\<lambda>b x. if b then v else x) (pixels w) (pixels a)"
proof -
  from assms have "np_binop (\<lambda>b x. if b then v else x) w a = Inr c"
    by (simp add: set_where_def split: sum.splits)
  from np_binop_Inr [OF this] show ?thesis by simp
qed

lemma sanitize_pixels:
  assumes "length F = length I" and "length I = length M"
  shows "map2 (\<lambda>b x. if b then Fin 0 else x)
           (map2 (\<or>) (map isnan F)
              (map isnan (map2 (\<lambda>i u. fmul i (if u then Fin 1 else Fin 0)) I
                            (map (\<lambda>m. m = Fin 0) M)))) F
           = map stored_flux (zip F (zip I M))
       \<and> map2 (\<lambda>b x. if b then Fin 0 else x)
           (map2 (\<or>) (map isnan F)
              (map isnan (map2 (\<lambda>i u. fmul i (if u then Fin 1 else Fin 0)) I
                            (map (\<lambda>m. m = Fin 0) M))))
           (map2 (\<lambda>i u. fmul i (if u then Fin 1 else Fin 0)) I (map (\<lambda>m. m = Fin 0) M))
           = map stored_ivar (zip F (zip I M))"
  using assms
  by (induction F I M rule: list_induct3) (simp_all add: stored_flux_def stored_ivar_def masked_ivar_def)


lemma read_hdu_Inr: "read_hdu hdul name = Inr a \<Longrightarrow> hdul name = Some a"
  by (simp add: read_hdu_def split: option.splits)

lemma read_band_Inr:
  assumes "read_band hdul color = Inr spec"
  shows "\<exists>wavelength flux0 ivar0 mask0 flux1 ivar1.
           hdul (color @ ''_WAVELENGTH'') = Some wavelength
         \<and> hdul (color @ ''_FLUX'') = Some flux0
         \<and> hdul (color @ ''_IVAR'') = Some ivar0
         \<and> hdul (color @ ''_MASK'') = Some mask0
         \<and> spec = [''WAVELENGTHL'' \<mapsto> wavelength, ''FLUX'' \<mapsto> flux1, ''IVAR'' \<mapsto> ivar1]
         \<and> shape flux1 = shape flux0 \<and> shape ivar1 = shape flux0
         \<and> pixels flux1 = map stored_flux (zip (pixels flux0) (zip (pixels ivar0) (pixels mask0)))
         \<and> pixels ivar1 = map stored_ivar (zip (pixels flux0) (zip (pixels ivar0) (pixels mask0)))"
proof -
  from assms obtain wavelength flux0 ivar0 mask0 ivar1 w flux1 ivar2
    where rd: "read_hdu hdul (color @ ''_WAVELENGTH'') = Inr wavelength"
      "read_hdu hdul (color @ ''_FLUX'') = Inr flux0"
      "read_hdu hdul (color @ ''_IVAR'') = Inr ivar0"
      "read_hdu hdul (color @ ''_MASK'') = Inr mask0"
      and iv: "np_binop (\<lambda>i unmasked. fmul i (if unmasked then Fin 1 else Fin 0))
                 ivar0 (np_map (\<lambda>m. m = Fin 0) mask0) = Inr ivar1"
      and w: "np_binop (\<or>) (np_map isnan flux0) (np_map isnan ivar1) = Inr w"
      and f1: "set_where w (Fin 0) flux0 = Inr flux1"
      and i2: "set_where w (Fin 0) ivar1 = Inr ivar2"
      and spec: "spec = [''WAVELENGTHL'' \<mapsto> wavelength, ''FLUX'' \<mapsto> flux1,
                         ''IVAR'' \<mapsto> ivar2]"
    unfolding read_band_def by (auto split: sum.splits)
  note IV = np_binop_Inr [OF iv] and W = np_binop_Inr [OF w]
    and F1 = set_where_Inr [OF f1] and I2 = set_where_Inr [OF i2]
  from IV W have sh: "shape ivar0 = shape mask0" "shape flux0 = shape ivar0"
    by simp_all
  have len: "length (pixels flux0) = length (pixels ivar0)"
    "length (pixels ivar0) = length (pixels mask0)"
    by (rule shape_length_pixels [OF sh(2)], rule shape_length_pixels [OF sh(1)])
  note S = sanitize_pixels [OF len]
  have pi1: "pixels ivar1 = map2 (\<lambda>i u. fmul i (if u then Fin 1 else Fin 0)) (pixels ivar0)
                              (map (\<lambda>m. m = Fin 0) (pixels mask0))"
    using IV by simp
  have pw: "pixels w = map2 (\<or>) (map isnan (pixels flux0)) (map isnan (pixels ivar1))"
    using W by simp
  have pf: "pixels flux1 = map2 (\<lambda>b x. if b then Fin 0 else x) (pixels w) (pixels flux0)"
    using F1 by simp
  have pi2: "pixels ivar2 = map2 (\<lambda>b x. if b then Fin 0 else x) (pixels w) (pixels ivar1)"
    using I2 by simp
  have "pixels flux1 =
      map stored_flux (zip (pixels flux0) (zip (pixels ivar0) (pixels mask0)))"
    unfolding pf pw pi1 by (rule S [THEN conjunct1])
  moreover have "pixels ivar2 =
      map stored_ivar (zip (pixels flux0) (zip (pixels ivar0) (pixels mask0)))"
    unfolding pi2 pw pi1 by (rule S [THEN conjunct2])
  moreover from IV W F1 I2 have "shape flux1 = shape flux0" "shape ivar2 = shape flux0"
    by simp_all
  moreover from rd have "hdul (color @ ''_WAVELENGTH'') = Some wavelength"
    "hdul (color @ ''_FLUX'') = Some flux0" "hdul (color @ ''_IVAR'') = Some ivar0"
    "hdul (color @ ''_MASK'') = Some mask0"
    by (simp_all add: read_hdu_Inr)
  ultimately show ?thesis
    using spec by blast
qed




text \<open>
  The arrays of a forest are then looked up under keys that no stored band has, so that
  building a forest from a stored band raises \<open>KeyError\<close>.
\<close>

lemma read_band_no_forest:
  "read_band hdul color = Inr spec \<Longrightarrow> forest_arrays spec = Inl (KeyError ''IV'')"
  by (drule read_band_Inr) (auto simp: forest_arrays_def dict_get_def)




end
